theory Spec2Isabelle
  imports Complex_Main
begin

section \<open>Data model\<close>

text \<open>
  The simulation lives in the React component \<open>Simulation\<close> (src/app/layout.tsx, second
  document). Its interfaces \<open>Cell\<close> and \<open>SimulationParams\<close> are records. JavaScript numbers
  are modelled as exact reals: rounding, NaN and the infinities are outside this model.
\<close>

record Cell =
  moisture :: real
  tapStatus :: bool
  overrideTap :: bool

record SimulationParams =
  diffusionCoefficient :: real
  evapotranspirationRate :: real
  irrigationRate :: real
  moistureThreshold :: real

text \<open>
  A cell is a JavaScript object, and the grid \<open>Cell[][]\<close> is an array of arrays of
  references to such objects. \<open>updateGrid\<close> copies the row arrays and then assigns to the
  fields of the objects, so whether two grids share their objects decides what it computes.
  The model therefore keeps the objects in a store and the grid as a list of lists of
  references.
\<close>

type_synonym ref = nat
type_synonym store = "ref \<Rightarrow> Cell"
type_synonym gridRefs = "ref list list"

text \<open>\<open>xs[k]\<close> in JavaScript: \<open>undefined\<close> (here \<open>None\<close>) for every index outside the array,
  a negative one included.\<close>

definition elemAt :: "'a list \<Rightarrow> int \<Rightarrow> 'a option" where
  "elemAt xs k = (if 0 \<le> k \<and> k < int (length xs) then Some (xs ! nat k) else None)"

text \<open>\<open>xs[k]?.[l]\<close>: the optional chain yields \<open>undefined\<close> when \<open>xs[k]\<close> is.\<close>

definition elemAtChain :: "'a list list \<Rightarrow> int \<Rightarrow> int \<Rightarrow> 'a option" where
  "elemAtChain xss k l = (case elemAt xss k of None \<Rightarrow> None | Some xs \<Rightarrow> elemAt xs l)"

text \<open>\<open>.filter(Boolean)\<close> on an array of objects and \<open>undefined\<close>s keeps the objects, in order.\<close>

fun filterBoolean :: "'a option list \<Rightarrow> 'a list" where
  "filterBoolean [] = []"
| "filterBoolean (None # xs) = filterBoolean xs"
| "filterBoolean (Some x # xs) = x # filterBoolean xs"

text \<open>Assignment to the fields of the object behind a reference.\<close>

definition modify :: "ref \<Rightarrow> (Cell \<Rightarrow> Cell) \<Rightarrow> store \<Rightarrow> store" where
  "modify r f h = h(r := f (h r))"

section \<open>The update rule\<close>

text \<open>The array literal of lines 158--163, filtered: the neighbours of cell \<open>(i, j)\<close> that
  exist, read through \<open>prevGrid\<close>. Inside the loops \<open>i\<close> is an index of \<open>prevGrid\<close>, so
  \<open>prevGrid[i]\<close> is a row.\<close>

definition neighbors :: "'a list list \<Rightarrow> nat \<Rightarrow> nat \<Rightarrow> 'a list" where
  "neighbors prevGrid i j = filterBoolean
     [ elemAtChain prevGrid (int i - 1) (int j),
       elemAtChain prevGrid (int i + 1) (int j),
       elemAt (prevGrid ! i) (int j - 1),
       elemAt (prevGrid ! i) (int j + 1) ]"

text \<open>The \<open>forEach\<close> of lines 165--168. Both \<open>neighbor.moisture\<close> and
  \<open>prevGrid[i][j].moisture\<close> are field reads of objects, done when the loop runs.\<close>

definition deltaMoisture :: "SimulationParams \<Rightarrow> gridRefs \<Rightarrow> nat \<Rightarrow> nat \<Rightarrow> store \<Rightarrow> real" where
  "deltaMoisture params prevGrid i j h =
     foldl (\<lambda>d neighbor. d + diffusionCoefficient params *
                (moisture (h neighbor) - moisture (h (prevGrid ! i ! j))))
           0 (neighbors prevGrid i j)"

text \<open>The body of the inner loop, lines 148--171, as four assignments in sequence to the
  object \<open>newGrid[i][j]\<close>.\<close>

definition decideTap :: "SimulationParams \<Rightarrow> ref \<Rightarrow> store \<Rightarrow> store" where
  "decideTap params r h =
     (if \<not> overrideTap (h r)
      then modify r (\<lambda>c. c\<lparr>tapStatus := moisture c < moistureThreshold params\<rparr>) h
      else h)"

definition localFlux :: "SimulationParams \<Rightarrow> real \<Rightarrow> ref \<Rightarrow> store \<Rightarrow> store" where
  "localFlux params timeStepSize r h =
     (if tapStatus (h r)
      then modify r (\<lambda>c. c\<lparr>moisture := moisture c + irrigationRate params * timeStepSize\<rparr>) h
      else modify r (\<lambda>c. c\<lparr>moisture := moisture c - evapotranspirationRate params * timeStepSize\<rparr>) h)"

definition diffuse :: "SimulationParams \<Rightarrow> real \<Rightarrow> gridRefs \<Rightarrow> nat \<Rightarrow> nat \<Rightarrow> ref \<Rightarrow> store \<Rightarrow> store" where
  "diffuse params timeStepSize prevGrid i j r h =
     modify r (\<lambda>c. c\<lparr>moisture := moisture c + deltaMoisture params prevGrid i j h * timeStepSize\<rparr>) h"

definition clampCell :: "ref \<Rightarrow> store \<Rightarrow> store" where
  "clampCell r h = modify r (\<lambda>c. c\<lparr>moisture := max 0 (min 1 (moisture c))\<rparr>) h"

definition updateCell ::
  "SimulationParams \<Rightarrow> real \<Rightarrow> gridRefs \<Rightarrow> gridRefs \<Rightarrow> nat \<Rightarrow> store \<Rightarrow> nat \<Rightarrow> store" where
  "updateCell params timeStepSize prevGrid newGrid i h j =
     clampCell (newGrid ! i ! j)
       (diffuse params timeStepSize prevGrid i j (newGrid ! i ! j)
          (localFlux params timeStepSize (newGrid ! i ! j)
             (decideTap params (newGrid ! i ! j) h)))"

text \<open>
  The updater passed to \<open>setGrid\<close>, lines 144--175. \<open>prevGrid.map(row => [...row])\<close> builds
  new row arrays holding the same references, so \<open>newGrid[i][j]\<close> and \<open>prevGrid[i][j]\<close>
  denote one object. The loops run over the rows and columns of \<open>newGrid\<close> in order.
\<close>

definition updateRow ::
  "SimulationParams \<Rightarrow> real \<Rightarrow> gridRefs \<Rightarrow> gridRefs \<Rightarrow> store \<Rightarrow> nat \<Rightarrow> store" where
  "updateRow params timeStepSize prevGrid newGrid h i =
     foldl (updateCell params timeStepSize prevGrid newGrid i) h [0..<length (newGrid ! i)]"

definition updateGridCells ::
  "SimulationParams \<Rightarrow> real \<Rightarrow> gridRefs \<Rightarrow> store \<Rightarrow> gridRefs \<times> store" where
  "updateGridCells params timeStepSize prevGrid h =
     (let newGrid = map (\<lambda>row. map (\<lambda>c. c) row) prevGrid
      in (newGrid,
          foldl (updateRow params timeStepSize prevGrid newGrid) h [0..<length newGrid]))"

section \<open>The component state and its handlers\<close>

text \<open>
  The \<open>useState\<close> cells of the component that the simulation uses, together with the object
  store and the next unused reference. \<open>params\<close> and \<open>timeStepSize\<close> are state of the
  component as well; the handlers below take them as arguments, so that they may change
  between any two calls. The flag \<open>showCellDetails\<close>, which only opens and closes the
  dialog, is left out: the dialog counts as open whenever its content can be rendered.
\<close>

record Sim =
  cells :: store
  grid :: gridRefs
  nextRef :: ref
  timeStep :: nat
  selectedCell :: "(nat \<times> nat) option"
  moistureHistory :: "(nat \<times> real) list"

text \<open>The grid as a reader of the state sees it: \<open>grid[row][col]\<close> dereferenced.\<close>

definition cellAt :: "Sim \<Rightarrow> nat \<Rightarrow> nat \<Rightarrow> Cell" where
  "cellAt s row col = cells s (grid s ! row ! col)"

definition cellsOf :: "Sim \<Rightarrow> Cell list list" where
  "cellsOf s = map (map (cells s)) (grid s)"

text \<open>The state before the first effect has run: \<open>useState([])\<close>, \<open>useState(0)\<close>,
  \<open>useState(null)\<close>, \<open>useState([])\<close> (lines 105--115).\<close>

definition initialSim :: Sim where
  "initialSim =
     \<lparr> cells = (\<lambda>r. \<lparr>moisture = 0, tapStatus = False, overrideTap = False\<rparr>),
       grid = [], nextRef = 0, timeStep = 0, selectedCell = None, moistureHistory = [] \<rparr>"

text \<open>\<open>updateGrid\<close>, lines 143--178: the grid updater and \<open>setTimeStep(prev => prev + 1)\<close>.\<close>

definition updateGrid :: "SimulationParams \<Rightarrow> real \<Rightarrow> Sim \<Rightarrow> Sim" where
  "updateGrid params timeStepSize s =
     (case updateGridCells params timeStepSize (grid s) (cells s) of
        (newGrid, h) \<Rightarrow> s\<lparr>cells := h, grid := newGrid, timeStep := timeStep s + 1\<rparr>)"

text \<open>\<open>handleCellClick\<close>, lines 211--214.\<close>

definition handleCellClick :: "nat \<Rightarrow> nat \<Rightarrow> Sim \<Rightarrow> Sim" where
  "handleCellClick row col s = s\<lparr>selectedCell := Some (row, col)\<rparr>"

text \<open>
  The three grid updaters of the cell dialog (lines 534--543, 552--561, 566--574) have one
  shape: copy the outer array, copy the selected row, and put a new object, a copy of the
  selected cell with some fields replaced, at the selected column.
\<close>

definition replaceCell :: "nat \<Rightarrow> nat \<Rightarrow> (Cell \<Rightarrow> Cell) \<Rightarrow> Sim \<Rightarrow> Sim" where
  "replaceCell row col f s =
     (let new = nextRef s
      in s\<lparr> cells := (cells s)(new := f (cells s (grid s ! row ! col))),
            grid := (grid s)[row := (grid s ! row)[col := new]],
            nextRef := Suc new \<rparr>)"

datatype MoistureUnit = Percentage | Volumetric

text \<open>The \<open>onChange\<close> of the input "Set Moisture Manually", for a value that is a number.\<close>

definition setMoistureManually :: "MoistureUnit \<Rightarrow> real \<Rightarrow> nat \<Rightarrow> nat \<Rightarrow> Sim \<Rightarrow> Sim" where
  "setMoistureManually moistureUnit v row col s =
     (let newMoisture = (case moistureUnit of Percentage \<Rightarrow> v / 100 | Volumetric \<Rightarrow> v / 0.5)
      in replaceCell row col
           (\<lambda>c. c\<lparr>moisture := min 1 (max 0 newMoisture), overrideTap := True\<rparr>) s)"

text \<open>The \<open>onClick\<close> of "Toggle Tap".\<close>

definition toggleTap :: "nat \<Rightarrow> nat \<Rightarrow> Sim \<Rightarrow> Sim" where
  "toggleTap row col s =
     replaceCell row col (\<lambda>c. c\<lparr>tapStatus := \<not> tapStatus c, overrideTap := True\<rparr>) s"

text \<open>The \<open>onClick\<close> of "Reset Tap Control".\<close>

definition resetTapControl :: "nat \<Rightarrow> nat \<Rightarrow> Sim \<Rightarrow> Sim" where
  "resetTapControl row col s = replaceCell row col (\<lambda>c. c\<lparr>overrideTap := False\<rparr>) s"

text \<open>
  The content of the dialog, and with it the three controls, is rendered only under the
  condition of line 510:
  \<open>selectedCell && grid[selectedCell.row] && grid[selectedCell.row][selectedCell.col]\<close>.
\<close>

definition dialogCell :: "Sim \<Rightarrow> (nat \<times> nat) option" where
  "dialogCell s =
     (case selectedCell s of
        None \<Rightarrow> None
      | Some (row, col) \<Rightarrow>
          (case elemAtChain (grid s) (int row) (int col) of
             None \<Rightarrow> None
           | Some r \<Rightarrow> Some (row, col)))"

section \<open>History sampling\<close>

text \<open>\<open>.slice(-n)\<close>: the last \<open>n\<close> elements, all of them when there are fewer.\<close>

definition sliceLast :: "nat \<Rightarrow> 'a list \<Rightarrow> 'a list" where
  "sliceLast n xs = drop (length xs - n) xs"

datatype error = RangeError | TypeError | NotRendered

text \<open>
  The effect of lines 180--188. \<open>grid[row][col].moisture\<close> throws a \<open>TypeError\<close> when
  \<open>grid[row]\<close> or \<open>grid[row][col]\<close> is \<open>undefined\<close>. The sample stores the number read, not
  the object.
\<close>

definition historyEffect :: "Sim \<Rightarrow> error + Sim" where
  "historyEffect s =
     (case selectedCell s of
        None \<Rightarrow> Inr s
      | Some (row, col) \<Rightarrow>
          if length (grid s) > 0 then
            (case elemAtChain (grid s) (int row) (int col) of
               None \<Rightarrow> Inl TypeError
             | Some r \<Rightarrow>
                 Inr (s\<lparr>moistureHistory :=
                          sliceLast 20 (moistureHistory s @ [(timeStep s, moisture (cells s r))])\<rparr>))
          else Inr s)"

text \<open>
  What the user and the timer can do to the component. Each handler replaces \<open>grid\<close>,
  \<open>timeStep\<close> or \<open>selectedCell\<close> by a new value (a new array or object), all of them
  dependencies of the history effect, so the effect runs once after each handler (state
  updates of one handler are batched into one render). A control that is not rendered
  cannot be used: \<open>NotRendered\<close>. A cell of the grid display exists for every position of
  the grid; the three dialog controls exist when \<open>dialogCell\<close> is defined.
\<close>

datatype event =
    StepForward SimulationParams real
  | CellClick nat nat
  | ManualMoisture MoistureUnit real
  | ToggleTap
  | ResetTapControl

fun handler :: "event \<Rightarrow> Sim \<Rightarrow> error + Sim" where
  "handler (StepForward params timeStepSize) s = Inr (updateGrid params timeStepSize s)"
| "handler (CellClick row col) s =
     (if row < length (grid s) \<and> col < length (grid s ! row)
      then Inr (handleCellClick row col s) else Inl NotRendered)"
| "handler (ManualMoisture moistureUnit v) s =
     (case dialogCell s of
        None \<Rightarrow> Inl NotRendered
      | Some (row, col) \<Rightarrow> Inr (setMoistureManually moistureUnit v row col s))"
| "handler ToggleTap s =
     (case dialogCell s of
        None \<Rightarrow> Inl NotRendered
      | Some (row, col) \<Rightarrow> Inr (toggleTap row col s))"
| "handler ResetTapControl s =
     (case dialogCell s of
        None \<Rightarrow> Inl NotRendered
      | Some (row, col) \<Rightarrow> Inr (resetTapControl row col s))"

definition fire :: "event \<Rightarrow> Sim \<Rightarrow> error + Sim" where
  "fire ev s = (case handler ev s of Inl e \<Rightarrow> Inl e | Inr s' \<Rightarrow> historyEffect s')"

fun run :: "event list \<Rightarrow> Sim \<Rightarrow> error + Sim" where
  "run [] s = Inr s"
| "run (ev # evs) s = (case fire ev s of Inl e \<Rightarrow> Inl e | Inr s' \<Rightarrow> run evs s')"

section \<open>Grid creation\<close>

text \<open>
  \<open>initializeGrid\<close>, lines 124--137, as a function of the parsed search parameters
  (\<open>uniformMoisture\<close> is the percentage before the division by 100) and of the source of
  \<open>Math.random()\<close>, indexed by the number of earlier draws. \<open>Array(n)\<close> throws a
  \<open>RangeError\<close> unless \<open>n\<close> is an integer from 0 to \<open>2^32 - 1\<close>; the inner \<open>Array(cols)\<close> is
  evaluated once per row, so not at all when there are no rows. Every cell is a new object,
  so the result is given by its values. Search parameters that do not parse to a number are
  outside the model.
\<close>

definition newArray :: "int \<Rightarrow> error + nat" where
  "newArray n = (if 0 \<le> n \<and> n \<le> 4294967295 then Inr (nat n) else Inl RangeError)"

definition initializeGrid ::
  "int \<Rightarrow> int \<Rightarrow> string \<Rightarrow> real \<Rightarrow> (nat \<Rightarrow> real) \<Rightarrow> error + Cell list list" where
  "initializeGrid rows cols initialMoisture uniformMoisturePercent random =
     (let uniformMoisture = uniformMoisturePercent / 100
      in case newArray rows of
           Inl e \<Rightarrow> Inl e
         | Inr n \<Rightarrow>
             if n = 0 then Inr []
             else (case newArray cols of
                     Inl e \<Rightarrow> Inl e
                   | Inr m \<Rightarrow>
                       Inr (map (\<lambda>i. map (\<lambda>j.
                              \<lparr> moisture = (if initialMoisture = ''uniform'' then uniformMoisture
                                             else random (i * m + j)),
                                tapStatus = False, overrideTap = False \<rparr>) [0..<m]) [0..<n])))"

section \<open>The sweep, cell by cell\<close>

text \<open>
  The store when the loops of \<open>updateGrid\<close> reach cell \<open>(i, j)\<close>: the rows before \<open>i\<close> and
  the cells of row \<open>i\<close> before column \<open>j\<close> have been updated. \<open>readStore\<close> is the store in
  which the \<open>forEach\<close> of that cell reads \<open>neighbor.moisture\<close> and
  \<open>prevGrid[i][j].moisture\<close>: the cell's own tap decision and local flux are done as well.
\<close>

definition sweepBefore :: "SimulationParams \<Rightarrow> real \<Rightarrow> gridRefs \<Rightarrow> store \<Rightarrow> nat \<Rightarrow> nat \<Rightarrow> store" where
  "sweepBefore params timeStepSize g h i j =
     foldl (updateCell params timeStepSize g g i)
       (foldl (updateRow params timeStepSize g g) h [0..<i]) [0..<j]"

definition readStore :: "SimulationParams \<Rightarrow> real \<Rightarrow> gridRefs \<Rightarrow> store \<Rightarrow> nat \<Rightarrow> nat \<Rightarrow> store" where
  "readStore params timeStepSize g h i j =
     localFlux params timeStepSize (g ! i ! j)
       (decideTap params (g ! i ! j) (sweepBefore params timeStepSize g h i j))"

section \<open>Runs and observations\<close>

text \<open>The states after each call of a sequence of events, up to the first call that fails.\<close>

fun trace :: "event list \<Rightarrow> Sim \<Rightarrow> Sim list" where
  "trace [] s = []"
| "trace (ev # evs) s = (case fire ev s of Inl e \<Rightarrow> [] | Inr s' \<Rightarrow> s' # trace evs s')"

text \<open>The driver (the interval timer or the button "Step Forward") calling \<open>updateGrid\<close>
  once per tick, with the parameters and the time step size current at each call.\<close>

fun steps :: "(SimulationParams \<times> real) list \<Rightarrow> Sim \<Rightarrow> Sim" where
  "steps [] s = s"
| "steps ((params, timeStepSize) # ps) s = steps ps (updateGrid params timeStepSize s)"

definition stepEvents :: "(SimulationParams \<times> real) list \<Rightarrow> event list" where
  "stepEvents ps = map (\<lambda>(params, timeStepSize). StepForward params timeStepSize) ps"

text \<open>Every cell of the grid has its moisture in \<open>[0, 1]\<close>.\<close>

definition moistureInRange :: "Sim \<Rightarrow> bool" where
  "moistureInRange s =
     list_all (list_all (\<lambda>c. 0 \<le> moisture c \<and> moisture c \<le> 1)) (cellsOf s)"

text \<open>The sample the history effect records for cell \<open>(row, col)\<close> in state \<open>s\<close>.\<close>

definition sampleAt :: "nat \<Rightarrow> nat \<Rightarrow> Sim \<Rightarrow> nat \<times> real" where
  "sampleAt row col s = (timeStep s, moisture (cellAt s row col))"

text \<open>The position classes of an \<open>n \<times> n\<close> grid.\<close>

definition isCorner :: "nat \<Rightarrow> nat \<Rightarrow> nat \<Rightarrow> bool" where
  "isCorner n i j = ((i = 0 \<or> i = n - 1) \<and> (j = 0 \<or> j = n - 1))"

definition isBorder :: "nat \<Rightarrow> nat \<Rightarrow> nat \<Rightarrow> bool" where
  "isBorder n i j = (i = 0 \<or> i = n - 1 \<or> j = 0 \<or> j = n - 1)"

text \<open>A grid of \<open>n\<close> rows of \<open>n\<close> cells each.\<close>

definition isSquare :: "nat \<Rightarrow> 'a list list \<Rightarrow> bool" where
  "isSquare n g = (length g = n \<and> list_all (\<lambda>row. length row = n) g)"

section \<open>Example states\<close>

definition freshCell :: "real \<Rightarrow> Cell" where
  "freshCell m = \<lparr>moisture = m, tapStatus = False, overrideTap = False\<rparr>"

text \<open>A grid of one row and two cells with moistures \<open>0.25\<close> and \<open>0.75\<close>, and parameters
  with diffusion coefficient \<open>0.5\<close> and irrigation, evapotranspiration and threshold at 0.
  All numbers of a step from this state are binary fractions, so double precision computes
  them without rounding.\<close>

definition twoCellSim :: Sim where
  "twoCellSim = initialSim
     \<lparr> cells := (cells initialSim)(0 := freshCell (1 / 4), 1 := freshCell (3 / 4)),
       grid := [[0, 1]], nextRef := 2 \<rparr>"

definition diffusionOnly :: SimulationParams where
  "diffusionOnly =
     \<lparr> diffusionCoefficient = 1 / 2, evapotranspirationRate = 0,
       irrigationRate = 0, moistureThreshold = 0 \<rparr>"

text \<open>The parameters the component starts with (lines 108--113).\<close>

definition defaultParams :: SimulationParams where
  "defaultParams =
     \<lparr> diffusionCoefficient = 1 / 10, evapotranspirationRate = 2 / 100,
       irrigationRate = 5 / 100, moistureThreshold = 2 / 10 \<rparr>"

text \<open>The grid of one cell and the parameters of the scenario of the specification.\<close>

definition oneCellSim :: Sim where
  "oneCellSim = initialSim
     \<lparr> cells := (cells initialSim)(0 := freshCell (1 / 2)), grid := [[0]], nextRef := 1 \<rparr>"

definition scenarioParams :: SimulationParams where
  "scenarioParams =
     \<lparr> diffusionCoefficient = 0, evapotranspirationRate = 5 / 100,
       irrigationRate = 1 / 10, moistureThreshold = 6 / 10 \<rparr>"

text \<open>A grid of three rows and three columns, numbered row by row.\<close>

definition grid3 :: gridRefs where
  "grid3 = [[0, 1, 2], [3, 4, 5], [6, 7, 8]]"

text \<open>A source of random numbers that always draws one half.\<close>

definition constantRandom :: "nat \<Rightarrow> real" where
  "constantRandom k = 1 / 2"

text \<open>The one-cell grid after the user has clicked the cell and pressed "Toggle Tap".\<close>

definition overriddenSim :: Sim where
  "overriddenSim = toggleTap 0 0 (handleCellClick 0 0 oneCellSim)"

text \<open>A run that selects the right cell, enters 250 percent, steps, toggles the tap and
  resets the tap control.\<close>

definition mixedRun :: "event list" where
  "mixedRun = [CellClick 0 1, ManualMoisture Percentage 250, StepForward defaultParams 1,
               ToggleTap, ResetTapControl]"

text \<open>The two-cell grid while cell \<open>(0, 0)\<close> is observed, with the one sample the click
  recorded.\<close>

definition observedSim :: Sim where
  "observedSim = twoCellSim\<lparr>selectedCell := Some (0, 0), moistureHistory := [(0, 1 / 4)]\<rparr>"

text \<open>A state with the grid of three rows and three columns; cell number \<open>k\<close> has moisture
  \<open>k / 8\<close>.\<close>

definition nineCellSim :: Sim where
  "nineCellSim = initialSim
     \<lparr> cells := (cells initialSim)
         (0 := freshCell 0, 1 := freshCell (1 / 8), 2 := freshCell (2 / 8),
          3 := freshCell (3 / 8), 4 := freshCell (4 / 8), 5 := freshCell (5 / 8),
          6 := freshCell (6 / 8), 7 := freshCell (7 / 8), 8 := freshCell 1),
       grid := grid3, nextRef := 9 \<rparr>"

text \<open>A source of random numbers whose \<open>k\<close>-th draw is \<open>k / 8\<close>.\<close>

definition indexRandom :: "nat \<Rightarrow> real" where
  "indexRandom k = real k / 8"

section \<open>The sweep over the grid\<close>

lemma copyRows_same: "map (\<lambda>row. map (\<lambda>c. c) row) g = g"
  by (induction g) simp_all

lemma foldl_preserves:
  assumes "\<And>h x. P h \<Longrightarrow> P (f h x)" and "P h"
  shows "P (foldl f h xs)"
  using assms(2) by (induction xs arbitrary: h) (simp_all add: assms(1))

lemma updateGridCells_fst: "fst (updateGridCells params dt g h) = g"
  by (simp add: updateGridCells_def copyRows_same)

text \<open>Whatever every single cell update preserves, the whole sweep preserves.\<close>

lemma updateGridCells_preserves:
  assumes step: "\<And>i j h'. P h' \<Longrightarrow> P (updateCell params dt g g i h' j)" and init: "P h"
  shows "P (snd (updateGridCells params dt g h))"
proof -
  have row: "P (updateRow params dt g g h' i)" if "P h'" for h' i
    unfolding updateRow_def
    by (rule foldl_preserves[where P = P and f = "updateCell params dt g g i"])
       (simp_all add: step that)
  show ?thesis
    unfolding updateGridCells_def copyRows_same Let_def snd_conv
    by (rule foldl_preserves[where P = P and f = "updateRow params dt g g"])
       (simp_all add: row init)
qed

lemmas cellStages =
  updateCell_def clampCell_def diffuse_def localFlux_def decideTap_def modify_def

lemma updateCell_other: "r \<noteq> g' ! i ! j \<Longrightarrow> updateCell params dt g g' i h j r = h r"
  by (simp add: cellStages)

lemma updateCell_overrideTap:
  "overrideTap (updateCell params dt g g' i h j r) = overrideTap (h r)"
  by (simp add: cellStages)

lemma updateCell_tapStatus:
  "overrideTap (h r) \<Longrightarrow> tapStatus (updateCell params dt g g' i h j r) = tapStatus (h r)"
  by (auto simp add: cellStages)

lemma updateCell_clamped:
  "0 \<le> moisture (updateCell params dt g g' i h j (g' ! i ! j)) \<and>
   moisture (updateCell params dt g g' i h j (g' ! i ! j)) \<le> 1"
  by (simp add: cellStages)

lemma grid_updateGrid: "grid (updateGrid params dt s) = grid s"
  by (simp add: updateGrid_def case_prod_beta updateGridCells_fst)

lemma cells_updateGrid:
  "cells (updateGrid params dt s) = snd (updateGridCells params dt (grid s) (cells s))"
  by (simp add: updateGrid_def case_prod_beta)

lemma timeStep_updateGrid: "timeStep (updateGrid params dt s) = timeStep s + 1"
  by (simp add: updateGrid_def case_prod_beta)

lemma selectedCell_updateGrid: "selectedCell (updateGrid params dt s) = selectedCell s"
  by (simp add: updateGrid_def case_prod_beta)

lemma moistureHistory_updateGrid: "moistureHistory (updateGrid params dt s) = moistureHistory s"
  by (simp add: updateGrid_def case_prod_beta)

lemma overrideTap_updateGrid:
  "overrideTap (cells (updateGrid params dt s) r) = overrideTap (cells s r)"
  unfolding cells_updateGrid
  by (rule updateGridCells_preserves[where P = "\<lambda>h. overrideTap (h r) = overrideTap (cells s r)"])
     (simp_all add: updateCell_overrideTap)

lemma tapStatus_updateGrid:
  assumes "overrideTap (cells s r)"
  shows "tapStatus (cells (updateGrid params dt s) r) = tapStatus (cells s r)"
proof -
  let ?P = "\<lambda>h. overrideTap (h r) \<and> tapStatus (h r) = tapStatus (cells s r)"
  have "?P (snd (updateGridCells params dt (grid s) (cells s)))"
    by (rule updateGridCells_preserves[where P = ?P])
       (simp_all add: updateCell_overrideTap updateCell_tapStatus assms)
  then show ?thesis by (simp add: cells_updateGrid)
qed

lemmas exampleStates =
  initialSim_def freshCell_def oneCellSim_def twoCellSim_def overriddenSim_def
  diffusionOnly_def defaultParams_def scenarioParams_def

lemmas evalStep =
  updateGrid_def updateGridCells_def updateRow_def cellStages deltaMoisture_def
  neighbors_def elemAt_def elemAtChain_def cellAt_def cellsOf_def

lemmas evalDialog =
  handleCellClick_def toggleTap_def resetTapControl_def setMoistureManually_def
  replaceCell_def dialogCell_def

lemmas evalFire = fire_def historyEffect_def sliceLast_def evalDialog evalStep

section \<open>Frame of a step\<close>

text \<open>
  Claim C10: for every grid state and parameter setting, a step changes neither the
  dimensions of the grid (the number of rows and the length of each row) nor the
  \<open>overrideTap\<close> flag of any cell.
\<close>

theorem updateGrid_keeps_override_and_dimensions:
  "length (cellsOf (updateGrid params dt s)) = length (cellsOf s) \<and>
   map length (cellsOf (updateGrid params dt s)) = map length (cellsOf s) \<and>
   map (map overrideTap) (cellsOf (updateGrid params dt s)) = map (map overrideTap) (cellsOf s)"
  by (simp add: cellsOf_def grid_updateGrid overrideTap_updateGrid comp_def)

theorem updateGrid_keeps_override_and_dimensions_witness:
  "length (cellsOf (updateGrid diffusionOnly 1 twoCellSim)) = 1 \<and>
   map length (cellsOf (updateGrid diffusionOnly 1 twoCellSim)) = [2] \<and>
   map (map overrideTap) (cellsOf (updateGrid diffusionOnly 1 twoCellSim)) = [[False, False]]"
  using updateGrid_keeps_override_and_dimensions[of diffusionOnly 1 twoCellSim]
  by (simp add: cellsOf_def exampleStates)

section \<open>Override precedence\<close>

text \<open>
  Claim C5: for every cell \<open>(row, col)\<close> of the grid whose \<open>overrideTap\<close> is set, no number of
  subsequent steps, with any parameters, changes the cell's \<open>tapStatus\<close>, however its
  moisture compares with the threshold; the flag itself stays set as well, so the
  protection lasts until "Reset Tap Control" clears it.
\<close>

theorem override_precedence:
  assumes "row < length (grid s)" and "col < length (grid s ! row)"
    and "overrideTap (cellAt s row col)"
  shows "tapStatus (cellAt (steps ps s) row col) = tapStatus (cellAt s row col) \<and>
         overrideTap (cellAt (steps ps s) row col)"
  using assms(3)
proof (induction ps arbitrary: s)
  case Nil
  then show ?case by simp
next
  case (Cons p ps)
  obtain params dt where p: "p = (params, dt)" by (cases p)
  let ?s = "updateGrid params dt s"
  have o: "overrideTap (cellAt ?s row col)"
    using Cons.prems by (simp add: cellAt_def grid_updateGrid overrideTap_updateGrid)
  have t: "tapStatus (cellAt ?s row col) = tapStatus (cellAt s row col)"
    using Cons.prems by (simp add: cellAt_def grid_updateGrid tapStatus_updateGrid)
  from Cons.IH[OF o] t show ?case by (simp add: p)
qed

text \<open>In the witness the tap was switched on by hand while the moisture \<open>1/2\<close> is above the
  threshold \<open>2/10\<close>: the automatic rule would switch it off, and two steps leave it on.\<close>

theorem override_precedence_witness:
  "0 < length (grid overriddenSim) \<and> 0 < length (grid overriddenSim ! 0) \<and>
   overrideTap (cellAt overriddenSim 0 0) \<and>
   tapStatus (cellAt overriddenSim 0 0) \<and>
   \<not> moisture (cellAt overriddenSim 0 0) < moistureThreshold defaultParams \<and>
   tapStatus (cellAt (steps [(defaultParams, 1), (defaultParams, 1)] overriddenSim) 0 0) \<and>
   overrideTap (cellAt (steps [(defaultParams, 1), (defaultParams, 1)] overriddenSim) 0 0)"
proof -
  have r: "0 < length (grid overriddenSim)" "0 < length (grid overriddenSim ! 0)"
    by (simp_all add: exampleStates evalDialog)
  have o: "overrideTap (cellAt overriddenSim 0 0)"
    by (simp add: exampleStates evalDialog cellAt_def)
  have t: "tapStatus (cellAt overriddenSim 0 0)"
    "\<not> moisture (cellAt overriddenSim 0 0) < moistureThreshold defaultParams"
    by (simp_all add: exampleStates evalDialog cellAt_def)
  from override_precedence[OF r o, of "[(defaultParams, 1), (defaultParams, 1)]"] r o t
  show ?thesis by simp
qed

section \<open>The scenario of one cell\<close>

text \<open>
  Claim C9: a grid of one cell with moisture \<open>0.5\<close>, threshold \<open>0.6\<close>, irrigation rate
  \<open>0.1\<close>, evapotranspiration rate \<open>0.05\<close>, diffusion coefficient \<open>0\<close> and time step size
  \<open>1\<close>: the first step switches the tap on and yields moisture \<open>0.6\<close>, the second switches
  it off and yields \<open>0.55\<close>, in exact arithmetic.
\<close>

theorem one_cell_scenario:
  "cellsOf (updateGrid scenarioParams 1 oneCellSim) =
     [[\<lparr>moisture = 6 / 10, tapStatus = True, overrideTap = False\<rparr>]] \<and>
   cellsOf (updateGrid scenarioParams 1 (updateGrid scenarioParams 1 oneCellSim)) =
     [[\<lparr>moisture = 55 / 100, tapStatus = False, overrideTap = False\<rparr>]]"
  by (simp add: evalStep exampleStates)

section \<open>The neighbours a step reads\<close>

lemma moisture_after_flux:
  assumes "evapotranspirationRate params = 0" and "irrigationRate params = 0"
  shows "moisture (localFlux params dt r (decideTap params r h) r') = moisture (h r')"
  using assms by (simp add: localFlux_def decideTap_def modify_def)

lemma moisture_updateCell:
  "moisture (updateCell params dt g g' i h j (g' ! i ! j)) =
     max 0 (min 1
       (moisture (localFlux params dt (g' ! i ! j) (decideTap params (g' ! i ! j) h) (g' ! i ! j)) +
        deltaMoisture params g i j (localFlux params dt (g' ! i ! j) (decideTap params (g' ! i ! j) h)) * dt))"
  by (simp add: updateCell_def clampCell_def diffuse_def modify_def)

lemma neighbors_two_cells:
  "neighbors [[a, b]] 0 0 = [b]" "neighbors [[a, b]] 0 (Suc 0) = [a]"
  by (simp_all add: neighbors_def elemAtChain_def elemAt_def)

text \<open>
  With irrigation and evapotranspiration at 0, a step on a row of two distinct cells moves
  the left cell by the difference of the moistures before the tick, and the right cell by
  the difference to the left cell's moisture after its update.
\<close>

lemma two_cell_step_sequential:
  assumes g: "grid s = [[a, b]]" and ab: "a \<noteq> b"
    and p: "evapotranspirationRate params = 0" "irrigationRate params = 0"
  shows "moisture (cellAt (updateGrid params dt s) 0 0) =
           max 0 (min 1 (moisture (cellAt s 0 0) +
             diffusionCoefficient params * (moisture (cellAt s 0 1) - moisture (cellAt s 0 0)) * dt)) \<and>
         moisture (cellAt (updateGrid params dt s) 0 1) =
           max 0 (min 1 (moisture (cellAt s 0 1) +
             diffusionCoefficient params *
               (moisture (cellAt (updateGrid params dt s) 0 0) - moisture (cellAt s 0 1)) * dt))"
proof -
  let ?g = "[[a, b]]"
  define h1 where "h1 = updateCell params dt ?g ?g 0 (cells s) 0"
  define h2 where "h2 = updateCell params dt ?g ?g 0 h1 1"
  have c: "cells (updateGrid params dt s) = h2"
    by (simp add: cells_updateGrid updateGridCells_def updateRow_def Let_def g h1_def h2_def)
  have a1: "moisture (h1 a) = max 0 (min 1 (moisture (cells s a) +
              diffusionCoefficient params * (moisture (cells s b) - moisture (cells s a)) * dt))"
    using moisture_updateCell[of params dt ?g ?g 0 "cells s" 0]
    by (simp add: h1_def deltaMoisture_def neighbors_two_cells moisture_after_flux[OF p])
  have b1: "h1 b = cells s b"
    unfolding h1_def using ab by (simp add: updateCell_other)
  have a2: "h2 a = h1 a"
    unfolding h2_def using ab by (simp add: updateCell_other)
  have b2: "moisture (h2 b) = max 0 (min 1 (moisture (h1 b) +
              diffusionCoefficient params * (moisture (h1 a) - moisture (h1 b)) * dt))"
    using moisture_updateCell[of params dt ?g ?g 0 h1 1]
    by (simp add: h2_def deltaMoisture_def neighbors_two_cells moisture_after_flux[OF p])
  show ?thesis
    by (simp add: cellAt_def grid_updateGrid g c a2 a1 b2 b1)
qed

text \<open>
  Claim C1 says that in a grid of two cells with unequal moistures and no irrigation or
  evaporation one step changes the cells by opposite amounts \<open>D \<times> (m\<^sub>B - m\<^sub>A)\<close> and
  \<open>D \<times> (m\<^sub>A - m\<^sub>B)\<close>, both from the values before the tick. The step evaluated on
  moistures \<open>1/4\<close> and \<open>3/4\<close> with \<open>D = 1/2\<close>: the left cell gains \<open>1/4\<close>, the right cell
  loses \<open>1/8\<close> and not \<open>1/4\<close>, because its neighbour is read after it has been updated.
\<close>

theorem two_cell_step_reads_updated_neighbor:
  "moisture (cellAt (updateGrid diffusionOnly 1 twoCellSim) 0 0) - moisture (cellAt twoCellSim 0 0) = 1 / 4 \<and>
   moisture (cellAt (updateGrid diffusionOnly 1 twoCellSim) 0 1) - moisture (cellAt twoCellSim 0 1) = - (1 / 8) \<and>
   diffusionCoefficient diffusionOnly * (moisture (cellAt twoCellSim 0 0) - moisture (cellAt twoCellSim 0 1)) = - (1 / 4)"
  by (simp add: evalStep exampleStates)

section \<open>A step before the grid is initialised\<close>

text \<open>
  Claim C4 says that a step before initialisation fails with \<open>UninitializedGrid\<close> and
  leaves the tick counter alone. On the state the component starts with, the step
  succeeds, and the tick counter is 1 afterwards.
\<close>

theorem step_before_initialize_succeeds:
  "fire (StepForward defaultParams 1) initialSim = Inr (initialSim\<lparr>timeStep := 1\<rparr>)"
  by (simp add: fire_def historyEffect_def evalStep exampleStates)

text \<open>
  Claim C4 as amended: a step has no failure mode at all. On every state, the empty grid
  before initialisation included, it succeeds, advances the tick counter by exactly 1 and
  keeps the dimensions of the grid.
\<close>

theorem step_always_succeeds:
  "\<exists>s'. handler (StepForward params dt) s = Inr s' \<and> timeStep s' = timeStep s + 1 \<and>
        map length (cellsOf s') = map length (cellsOf s)"
  by (simp add: timeStep_updateGrid cellsOf_def grid_updateGrid comp_def)

theorem step_always_succeeds_witness:
  "handler (StepForward defaultParams 1) initialSim = Inr (initialSim\<lparr>timeStep := 1\<rparr>) \<and>
   timeStep (initialSim\<lparr>timeStep := 1\<rparr>) = timeStep initialSim + 1 \<and>
   map length (cellsOf (initialSim\<lparr>timeStep := 1\<rparr>)) = map length (cellsOf initialSim)"
  using step_always_succeeds[of defaultParams 1 initialSim]
  by (simp add: evalStep exampleStates)

section \<open>Grid creation\<close>

text \<open>
  Claim C3 says that creation fails with \<open>InvalidDimension\<close> when \<open>rows < 1\<close> or
  \<open>cols < 1\<close> and with \<open>InvalidMoisture\<close> when the uniform value is outside \<open>[0, 1]\<close>.
  \<open>initializeGrid\<close> returns a grid for no rows, for rows without columns, and for a uniform
  moisture of 150 percent.
\<close>

theorem initializeGrid_no_validation:
  "initializeGrid 0 3 ''uniform'' 50 constantRandom = Inr [] \<and>
   initializeGrid 1 0 ''uniform'' 50 constantRandom = Inr [[]] \<and>
   initializeGrid 1 2 ''uniform'' 150 constantRandom = Inr [[freshCell (3 / 2), freshCell (3 / 2)]]"
  by (simp add: initializeGrid_def newArray_def freshCell_def Let_def upt_rec)

text \<open>
  Claim C3 as amended: \<open>initializeGrid\<close> checks neither the dimensions nor the moisture and
  has no \<open>InvalidDimension\<close> or \<open>InvalidMoisture\<close> error. For \<open>rows\<close> and \<open>cols\<close> from 0 to
  \<open>2^32 - 1\<close>, in either seed mode and for any uniform percentage \<open>u\<close>, it returns a grid of
  \<open>rows\<close> rows and \<open>cols\<close> columns whose cells have the seeded moisture (\<open>u / 100\<close> in
  uniform mode, the draws of the random source in row-major order otherwise),
  \<open>tapStatus = false\<close> and \<open>overrideTap = false\<close>. For no rows it returns the empty grid
  whatever \<open>cols\<close> is; outside these bounds the array constructor throws a \<open>RangeError\<close>.
\<close>

theorem initializeGrid_creates:
  "(rows < 0 \<or> 4294967295 < rows \<longrightarrow>
      initializeGrid rows cols initialMoisture u random = Inl RangeError) \<and>
   (rows = 0 \<longrightarrow> initializeGrid rows cols initialMoisture u random = Inr []) \<and>
   (0 < rows \<and> rows \<le> 4294967295 \<and> (cols < 0 \<or> 4294967295 < cols) \<longrightarrow>
      initializeGrid rows cols initialMoisture u random = Inl RangeError) \<and>
   (0 \<le> rows \<and> rows \<le> 4294967295 \<and> 0 \<le> cols \<and> cols \<le> 4294967295 \<longrightarrow>
      (\<exists>g. initializeGrid rows cols initialMoisture u random = Inr g \<and>
           length g = nat rows \<and>
           (\<forall>i<nat rows. length (g ! i) = nat cols \<and>
              (\<forall>j<nat cols. g ! i ! j =
                 freshCell (if initialMoisture = ''uniform'' then u / 100
                            else random (i * nat cols + j))))))"
  by (auto simp add: initializeGrid_def newArray_def freshCell_def Let_def)

theorem initializeGrid_creates_witness:
  "(0::int) \<le> 2 \<and> (2::int) \<le> 4294967295 \<and> (0::int) \<le> 3 \<and> (3::int) \<le> 4294967295 \<and>
   (\<exists>g. initializeGrid 2 3 ''random'' 50 indexRandom = Inr g \<and> length g = 2 \<and>
        length (g ! 1) = 3 \<and> g ! 1 ! 2 = freshCell (5 / 8)) \<and>
   (\<exists>g. initializeGrid 2 3 ''uniform'' 150 indexRandom = Inr g \<and> length g = 2 \<and>
        length (g ! 1) = 3 \<and> g ! 1 ! 2 = freshCell (3 / 2)) \<and>
   initializeGrid 0 (- 1) ''uniform'' 50 indexRandom = Inr [] \<and>
   initializeGrid (- 1) 3 ''random'' 50 indexRandom = Inl RangeError \<and>
   initializeGrid 1 (- 1) ''random'' 50 indexRandom = Inl RangeError"
proof -
  have b: "(0::int) \<le> 2" "(2::int) \<le> 4294967295" "(0::int) \<le> 3" "(3::int) \<le> 4294967295"
    by simp_all
  from initializeGrid_creates[of 2 3 "''random''" 50 indexRandom] b
  obtain g where g: "initializeGrid 2 3 ''random'' 50 indexRandom = Inr g" "length g = 2"
    and gc: "\<forall>i<2. length (g ! i) = 3 \<and> (\<forall>j<3. g ! i ! j = freshCell (indexRandom (i * 3 + j)))"
    by auto
  from gc have g1: "length (g ! 1) = 3" "g ! 1 ! 2 = freshCell (5 / 8)"
    by (simp_all add: indexRandom_def)
  from initializeGrid_creates[of 2 3 "''uniform''" 150 indexRandom] b
  obtain g' where g': "initializeGrid 2 3 ''uniform'' 150 indexRandom = Inr g'" "length g' = 2"
    and gc': "\<forall>i<2. length (g' ! i) = 3 \<and> (\<forall>j<3. g' ! i ! j = freshCell (150 / 100))"
    by auto
  from gc' have g1': "length (g' ! 1) = 3" "g' ! 1 ! 2 = freshCell (3 / 2)"
    by simp_all
  have e: "initializeGrid 0 (- 1) ''uniform'' 50 indexRandom = Inr []"
    "initializeGrid (- 1) 3 ''random'' 50 indexRandom = Inl RangeError"
    "initializeGrid 1 (- 1) ''random'' 50 indexRandom = Inl RangeError"
    using initializeGrid_creates[of 0 "- 1" "''uniform''" 50 indexRandom]
      initializeGrid_creates[of "- 1" 3 "''random''" 50 indexRandom]
      initializeGrid_creates[of 1 "- 1" "''random''" 50 indexRandom]
    by simp_all
  from b g g1 g' g1' e show ?thesis by blast
qed

section \<open>The clamping invariant\<close>

lemma moistureInRange_iff:
  "moistureInRange s \<longleftrightarrow>
     (\<forall>r\<in>set (concat (grid s)). 0 \<le> moisture (cells s r) \<and> moisture (cells s r) \<le> 1)"
  by (auto simp add: moistureInRange_def cellsOf_def list_all_iff)

lemma updateGrid_inRange:
  assumes "moistureInRange s"
  shows "moistureInRange (updateGrid params dt s)"
proof -
  let ?P = "\<lambda>h::store. \<forall>r\<in>set (concat (grid s)). 0 \<le> moisture (h r) \<and> moisture (h r) \<le> 1"
  have "?P (snd (updateGridCells params dt (grid s) (cells s)))"
  proof (rule updateGridCells_preserves[where P = ?P])
    fix i j h'
    assume h': "?P h'"
    show "?P (updateCell params dt (grid s) (grid s) i h' j)"
    proof
      fix r assume r: "r \<in> set (concat (grid s))"
      show "0 \<le> moisture (updateCell params dt (grid s) (grid s) i h' j r) \<and>
            moisture (updateCell params dt (grid s) (grid s) i h' j r) \<le> 1"
      proof (cases "r = grid s ! i ! j")
        case True
        then show ?thesis using updateCell_clamped[of params dt "grid s" "grid s" i h' j] by simp
      next
        case False
        then show ?thesis using h' r by (auto simp add: updateCell_other)
      qed
    qed
  next
    show "?P (cells s)" using assms by (simp add: moistureInRange_iff)
  qed
  then show ?thesis by (simp add: moistureInRange_iff grid_updateGrid cells_updateGrid)
qed

lemma refs_update_subset:
  "set (concat (g[row := (g ! row)[col := new]])) \<subseteq> insert new (set (concat g))"
proof
  fix x assume "x \<in> set (concat (g[row := (g ! row)[col := new]]))"
  then obtain xs where xs: "xs \<in> set (g[row := (g ! row)[col := new]])" and x: "x \<in> set xs"
    by auto
  have "xs = (g ! row)[col := new] \<and> row < length g \<or> xs \<in> set g"
  proof (cases "row < length g")
    case True
    then show ?thesis using xs set_update_subset_insert[of g row "(g ! row)[col := new]"] by auto
  next
    case False
    then have "g[row := (g ! row)[col := new]] = g" by (simp add: list_update_beyond)
    with xs show ?thesis by simp
  qed
  then show "x \<in> insert new (set (concat g))"
  proof
    assume a: "xs = (g ! row)[col := new] \<and> row < length g"
    with x have "x \<in> insert new (set (g ! row))"
      using set_update_subset_insert[of "g ! row" col new] by auto
    with a show ?thesis by auto
  next
    assume "xs \<in> set g"
    with x show ?thesis by auto
  qed
qed

lemma replaceCell_inRange:
  assumes "row < length (grid s)" and "col < length (grid s ! row)"
    and "moistureInRange s"
    and f: "\<And>c. 0 \<le> moisture c \<and> moisture c \<le> 1 \<Longrightarrow> 0 \<le> moisture (f c) \<and> moisture (f c) \<le> 1"
  shows "moistureInRange (replaceCell row col f s)"
proof -
  have old: "grid s ! row ! col \<in> set (concat (grid s))"
    using assms(1,2) by (auto intro!: bexI[of _ "grid s ! row"])
  have inv: "\<forall>r\<in>set (concat (grid s)). 0 \<le> moisture (cells s r) \<and> moisture (cells s r) \<le> 1"
    using assms(3) by (simp add: moistureInRange_iff)
  show ?thesis
    unfolding moistureInRange_iff
  proof
    fix r assume "r \<in> set (concat (grid (replaceCell row col f s)))"
    then have "r \<in> insert (nextRef s) (set (concat (grid s)))"
      using refs_update_subset[of "grid s" row col "nextRef s"]
      by (auto simp add: replaceCell_def Let_def)
    then show "0 \<le> moisture (cells (replaceCell row col f s) r) \<and>
               moisture (cells (replaceCell row col f s) r) \<le> 1"
      using inv old f by (auto simp add: replaceCell_def Let_def)
  qed
qed

lemma dialogCell_Some:
  "dialogCell s = Some (row, col) \<Longrightarrow>
     selectedCell s = Some (row, col) \<and> row < length (grid s) \<and> col < length (grid s ! row)"
  by (auto simp add: dialogCell_def elemAtChain_def elemAt_def split: option.splits if_splits)

lemma historyEffect_grid:
  "historyEffect s = Inr s' \<Longrightarrow> cells s' = cells s \<and> grid s' = grid s"
  by (auto simp add: historyEffect_def split: option.splits if_splits)

lemma historyEffect_inRange:
  "historyEffect s = Inr s' \<Longrightarrow> moistureInRange s' = moistureInRange s"
  by (simp add: moistureInRange_iff historyEffect_grid)

lemma handler_inRange:
  assumes "moistureInRange s" and "handler ev s = Inr s'"
  shows "moistureInRange s'"
proof (cases ev)
  case (StepForward params dt)
  then show ?thesis using assms by (auto simp add: updateGrid_inRange)
next
  case (CellClick row col)
  then show ?thesis using assms
    by (auto simp add: moistureInRange_iff handleCellClick_def split: if_splits)
next
  case (ManualMoisture u v)
  then show ?thesis using assms
    by (auto simp add: setMoistureManually_def Let_def split: option.splits
             dest!: dialogCell_Some intro!: replaceCell_inRange)
next
  case ToggleTap
  then show ?thesis using assms
    by (auto simp add: toggleTap_def split: option.splits
             dest!: dialogCell_Some intro!: replaceCell_inRange)
next
  case ResetTapControl
  then show ?thesis using assms
    by (auto simp add: resetTapControl_def split: option.splits
             dest!: dialogCell_Some intro!: replaceCell_inRange)
qed

lemma fire_inRange:
  assumes "moistureInRange s" and "fire ev s = Inr s'"
  shows "moistureInRange s'"
  using assms
  by (auto simp add: fire_def historyEffect_inRange split: sum.splits dest: handler_inRange)

text \<open>
  Claim C2: from a grid whose cells all have their moisture in \<open>[0, 1]\<close>, after each call
  of any finite sequence of steps (with any parameters), cell selections, manual moisture
  entries, tap toggles and tap control resets, every cell's moisture is in \<open>[0, 1]\<close>.
\<close>

theorem moisture_stays_clamped:
  assumes "moistureInRange s"
  shows "list_all moistureInRange (trace evs s)"
  using assms
  by (induction evs arbitrary: s) (auto split: sum.splits dest: fire_inRange)


text \<open>The witness run enters 250 percent by hand, which the handler clamps to 1.\<close>

theorem moisture_stays_clamped_witness:
  "moistureInRange twoCellSim \<and> length (trace mixedRun twoCellSim) = 5 \<and>
   list_all moistureInRange (trace mixedRun twoCellSim)"
proof -
  have h: "moistureInRange twoCellSim"
    by (simp add: moistureInRange_def cellsOf_def exampleStates)
  have l: "length (trace mixedRun twoCellSim) = 5"
    by (simp add: mixedRun_def evalFire exampleStates)
  from moisture_stays_clamped[OF h, of mixedRun] h l show ?thesis by simp
qed

section \<open>History sampling\<close>

text \<open>
  Claim C7 says that switching the observed cell clears the samples of the previous
  selection. Observing cell \<open>(0, 0)\<close> for one step and then clicking cell \<open>(0, 1)\<close>: both
  samples of cell \<open>(0, 0)\<close> are still in the history, followed by one of cell \<open>(0, 1)\<close>.
\<close>

theorem switch_keeps_history:
  "map_sum id moistureHistory (run [CellClick 0 0, StepForward diffusionOnly 1] twoCellSim) =
     Inr [(0, 1 / 4), (1, 1 / 2)] \<and>
   map_sum id moistureHistory
     (run [CellClick 0 0, StepForward diffusionOnly 1, CellClick 0 1] twoCellSim) =
     Inr [(0, 1 / 4), (1, 1 / 2), (1, 5 / 8)]"
  by (simp add: evalFire exampleStates)

text \<open>
  Claim C7 as amended: switching the observed cell clears nothing. Clicking a cell of the
  grid appends one sample of that cell, at the current tick, to the history as it is, and
  keeps the most recent 20 entries.
\<close>

theorem switch_appends_sample:
  assumes "row < length (grid s)" and "col < length (grid s ! row)"
  shows "fire (CellClick row col) s =
           Inr (s\<lparr>selectedCell := Some (row, col),
                  moistureHistory := sliceLast 20 (moistureHistory s @ [sampleAt row col s])\<rparr>)"
  using assms
  by (auto simp add: fire_def historyEffect_def handleCellClick_def elemAtChain_def elemAt_def
                     sampleAt_def cellAt_def)

theorem switch_appends_sample_witness:
  "0 < length (grid observedSim) \<and> 1 < length (grid observedSim ! 0) \<and>
   moistureHistory observedSim = [(0, 1 / 4)] \<and>
   fire (CellClick 0 1) observedSim =
     Inr (observedSim\<lparr>selectedCell := Some (0, 1),
                       moistureHistory := [(0, 1 / 4), (0, 3 / 4)]\<rparr>)"
proof -
  have h: "0 < length (grid observedSim)" "1 < length (grid observedSim ! 0)"
    by (simp_all add: observedSim_def exampleStates)
  have m: "moistureHistory observedSim = [(0, 1 / 4)]"
    by (simp add: observedSim_def)
  have "sliceLast 20 (moistureHistory observedSim @ [sampleAt 0 1 observedSim]) =
        [(0, 1 / 4), (0, 3 / 4)]"
    by (simp add: sampleAt_def cellAt_def sliceLast_def observedSim_def exampleStates)
  with switch_appends_sample[OF h] h m show ?thesis by simp
qed

lemma sliceLast_length: "length (sliceLast n xs) \<le> n"
  by (simp add: sliceLast_def)

lemma sliceLast_sliceLast_append: "sliceLast n (sliceLast n xs @ ys) = sliceLast n (xs @ ys)"
proof (cases "n \<le> length xs")
  case True
  then show ?thesis by (simp add: sliceLast_def add.commute)
next
  case False
  then show ?thesis by (simp add: sliceLast_def)
qed

lemma sliceLast_long: "n \<le> length ys \<Longrightarrow> sliceLast n (xs @ ys) = drop (length ys - n) ys"
  by (simp add: sliceLast_def)

lemma fire_StepForward_selected:
  assumes "selectedCell s = Some (row, col)"
    and "row < length (grid s)" and "col < length (grid s ! row)"
  shows "fire (StepForward params dt) s =
           Inr ((updateGrid params dt s)
                  \<lparr>moistureHistory :=
                     sliceLast 20 (moistureHistory s @ [sampleAt row col (updateGrid params dt s)])\<rparr>)"
  using assms
  by (auto simp add: fire_def historyEffect_def elemAtChain_def elemAt_def sampleAt_def cellAt_def
                     selectedCell_updateGrid grid_updateGrid moistureHistory_updateGrid)

lemma sampleAt_history [simp]: "sampleAt row col (s\<lparr>moistureHistory := h\<rparr>) = sampleAt row col s"
  by (simp add: sampleAt_def cellAt_def)

lemma run_steps_history:
  assumes "selectedCell s = Some (row, col)"
    and "row < length (grid s)" and "col < length (grid s ! row)"
    and "length (moistureHistory s) \<le> 20"
  shows "\<exists>s'. run (stepEvents ps) s = Inr s' \<and>
           length (trace (stepEvents ps) s) = length ps \<and>
           map timeStep (trace (stepEvents ps) s) = [timeStep s + 1 ..< timeStep s + 1 + length ps] \<and>
           list_all (\<lambda>t. length (moistureHistory t) \<le> 20) (trace (stepEvents ps) s) \<and>
           moistureHistory s' =
             sliceLast 20 (moistureHistory s @ map (sampleAt row col) (trace (stepEvents ps) s))"
  using assms
proof (induction ps arbitrary: s)
  case Nil
  then show ?case by (simp add: stepEvents_def sliceLast_def)
next
  case (Cons p ps)
  obtain params dt where p: "p = (params, dt)" by (cases p)
  define s1 where "s1 = (updateGrid params dt s)
      \<lparr>moistureHistory :=
         sliceLast 20 (moistureHistory s @ [sampleAt row col (updateGrid params dt s)])\<rparr>"
  have f: "fire (StepForward params dt) s = Inr s1"
    unfolding s1_def using Cons.prems(1-3) by (rule fire_StepForward_selected)
  have sel: "selectedCell s1 = Some (row, col)"
    and g: "grid s1 = grid s" and t: "timeStep s1 = timeStep s + 1"
    and len: "length (moistureHistory s1) \<le> 20"
    and hist: "moistureHistory s1 = sliceLast 20 (moistureHistory s @ [sampleAt row col s1])"
    using Cons.prems(1)
    by (simp_all add: s1_def selectedCell_updateGrid grid_updateGrid timeStep_updateGrid
                      sliceLast_length)
  from Cons.IH[of s1] sel g len Cons.prems(2,3)
  obtain s' where r: "run (stepEvents ps) s1 = Inr s'"
    and l: "length (trace (stepEvents ps) s1) = length ps"
    and ts: "map timeStep (trace (stepEvents ps) s1) = [timeStep s1 + 1 ..< timeStep s1 + 1 + length ps]"
    and b: "list_all (\<lambda>t. length (moistureHistory t) \<le> 20) (trace (stepEvents ps) s1)"
    and h: "moistureHistory s' =
              sliceLast 20 (moistureHistory s1 @ map (sampleAt row col) (trace (stepEvents ps) s1))"
    by auto
  have ev: "stepEvents (p # ps) = StepForward params dt # stepEvents ps"
    by (simp add: stepEvents_def p)
  have tr: "trace (stepEvents (p # ps)) s = s1 # trace (stepEvents ps) s1"
    by (simp add: ev f)
  have c0: "run (stepEvents (p # ps)) s = Inr s'"
    by (simp add: ev f r)
  have c1: "length (trace (stepEvents (p # ps)) s) = length (p # ps)"
    by (simp add: tr l)
  have "[timeStep s + 1 ..< timeStep s + 1 + length (p # ps)] =
        (timeStep s + 1) # [Suc (timeStep s + 1) ..< timeStep s + 1 + length (p # ps)]"
    by (rule upt_conv_Cons) simp
  also have "Suc (timeStep s + 1) = timeStep s1 + 1"
    by (simp add: t)
  also have "timeStep s + 1 + length (p # ps) = timeStep s1 + 1 + length ps"
    by (simp add: t)
  finally have c2: "map timeStep (trace (stepEvents (p # ps)) s) =
                    [timeStep s + 1 ..< timeStep s + 1 + length (p # ps)]"
    unfolding tr list.map ts[symmetric] by (simp add: t)
  have c3: "list_all (\<lambda>t. length (moistureHistory t) \<le> 20) (trace (stepEvents (p # ps)) s)"
    by (simp add: tr b len)
  have c4: "moistureHistory s' =
              sliceLast 20 (moistureHistory s @ map (sampleAt row col) (trace (stepEvents (p # ps)) s))"
    using h hist sliceLast_sliceLast_append[of 20 "moistureHistory s @ [sampleAt row col s1]"]
    by (simp add: tr)
  from c0 c1 c2 c3 c4 show ?case by blast
qed


lemma fire_CellClick:
  assumes "row < length (grid s)" and "col < length (grid s ! row)"
  shows "fire (CellClick row col) s =
           Inr (s\<lparr>selectedCell := Some (row, col),
                  moistureHistory := sliceLast 20 (moistureHistory s @ [sampleAt row col s])\<rparr>)"
  using assms
  by (auto simp add: fire_def historyEffect_def handleCellClick_def elemAtChain_def elemAt_def
                     sampleAt_def cellAt_def)

text \<open>
  Claim C6: after a cell of the grid is observed (clicked) and 25 steps are performed,
  with any parameters, the history has exactly 20 entries: the samples of that cell after
  the last 20 steps, in strictly increasing tick order, the six oldest of the 26 samples
  having been dropped; and at no point of the run has the history more than 20 entries.
\<close>

theorem history_bounding:
  assumes "row < length (grid s)" and "col < length (grid s ! row)" and "length ps = 25"
  shows "\<exists>s'. run (CellClick row col # stepEvents ps) s = Inr s' \<and>
           length (moistureHistory s') = 20 \<and>
           moistureHistory s' =
             map (sampleAt row col) (drop 6 (trace (CellClick row col # stepEvents ps) s)) \<and>
           map fst (moistureHistory s') = [timeStep s + 6 ..< timeStep s + 26] \<and>
           sorted_wrt (<) (map fst (moistureHistory s')) \<and>
           list_all (\<lambda>t. length (moistureHistory t) \<le> 20)
             (trace (CellClick row col # stepEvents ps) s)"
proof -
  define s0 where "s0 = s\<lparr>selectedCell := Some (row, col),
      moistureHistory := sliceLast 20 (moistureHistory s @ [sampleAt row col s])\<rparr>"
  define T where "T = trace (CellClick row col # stepEvents ps) s"
  have f: "fire (CellClick row col) s = Inr s0"
    unfolding s0_def using assms(1,2) by (rule fire_CellClick)
  have sel: "selectedCell s0 = Some (row, col)" and g: "grid s0 = grid s"
    and t: "timeStep s0 = timeStep s" and len: "length (moistureHistory s0) \<le> 20"
    and smp: "sampleAt row col s0 = sampleAt row col s"
    and hist: "moistureHistory s0 = sliceLast 20 (moistureHistory s @ [sampleAt row col s0])"
    by (simp_all add: s0_def sliceLast_length sampleAt_def cellAt_def)
  from run_steps_history[of s0 row col ps] sel g len assms(1,2)
  obtain s' where r: "run (stepEvents ps) s0 = Inr s'"
    and l: "length (trace (stepEvents ps) s0) = length ps"
    and ts: "map timeStep (trace (stepEvents ps) s0) = [timeStep s0 + 1 ..< timeStep s0 + 1 + length ps]"
    and b: "list_all (\<lambda>t. length (moistureHistory t) \<le> 20) (trace (stepEvents ps) s0)"
    and h: "moistureHistory s' =
              sliceLast 20 (moistureHistory s0 @ map (sampleAt row col) (trace (stepEvents ps) s0))"
    by auto
  have tr: "T = s0 # trace (stepEvents ps) s0"
    by (simp add: T_def f)
  have c0: "run (CellClick row col # stepEvents ps) s = Inr s'"
    by (simp add: f r)
  have l26: "length (T) = 26"
    unfolding tr by (simp add: l assms(3))
  have "moistureHistory s' = sliceLast 20 (moistureHistory s @ map (sampleAt row col) (T))"
    unfolding tr
    using h hist sliceLast_sliceLast_append[of 20 "moistureHistory s @ [sampleAt row col s0]"]
    by simp
  also have "\<dots> = drop 6 (map (sampleAt row col) (T))"
    using sliceLast_long[of 20 "map (sampleAt row col) (T)" "moistureHistory s"]
    by (simp add: l26)
  finally have c2: "moistureHistory s' = map (sampleAt row col) (drop 6 (T))"
    by (simp add: drop_map)
  have c1: "length (moistureHistory s') = 20"
    by (simp add: c2 l26)
  have "[timeStep s ..< timeStep s + 26] = timeStep s # [Suc (timeStep s) ..< timeStep s + 26]"
    by (rule upt_conv_Cons) simp
  also have "[Suc (timeStep s) ..< timeStep s + 26] = map timeStep (trace (stepEvents ps) s0)"
    unfolding ts by (simp add: t assms(3) add.commute)
  finally have all: "map timeStep (T) = [timeStep s ..< timeStep s + 26]"
    unfolding tr by (simp add: t)
  have "map fst (moistureHistory s') = drop 6 (map timeStep (T))"
    by (simp add: c2 drop_map sampleAt_def comp_def)
  then have c3: "map fst (moistureHistory s') = [timeStep s + 6 ..< timeStep s + 26]"
    unfolding all by simp
  have c4: "sorted_wrt (<) (map fst (moistureHistory s'))"
    unfolding c3 by simp
  have c5: "list_all (\<lambda>t. length (moistureHistory t) \<le> 20) (T)"
    unfolding tr by (simp add: b len)
  from c0 c1 c2 c3 c4 c5 show ?thesis unfolding T_def by blast
qed

theorem history_bounding_witness:
  "0 < length (grid oneCellSim) \<and> 0 < length (grid oneCellSim ! 0) \<and>
   length (replicate 25 (defaultParams, 1::real)) = 25 \<and>
   (\<exists>s'. run (CellClick 0 0 # stepEvents (replicate 25 (defaultParams, 1))) oneCellSim = Inr s' \<and>
      length (moistureHistory s') = 20 \<and>
      map fst (moistureHistory s') = [6 ..< 26])"
proof -
  have h: "0 < length (grid oneCellSim)" "0 < length (grid oneCellSim ! 0)"
    "length (replicate 25 (defaultParams, 1::real)) = 25"
    by (simp_all add: exampleStates)
  have t: "timeStep oneCellSim = 0"
    by (simp add: exampleStates)
  from history_bounding[OF h]
  obtain s' where r: "run (CellClick 0 0 # stepEvents (replicate 25 (defaultParams, 1))) oneCellSim = Inr s'"
    and l: "length (moistureHistory s') = 20"
    and m: "map fst (moistureHistory s') = [timeStep oneCellSim + 6 ..< timeStep oneCellSim + 26]"
    by blast
  from m have "map fst (moistureHistory s') = [6 ..< 26]"
    unfolding t by simp
  with r l h show ?thesis by blast
qed

section \<open>Neighbours at the boundary\<close>

lemma deltaMoisture_sum:
  "deltaMoisture params g i j h =
     (\<Sum>r\<leftarrow>neighbors g i j.
        diffusionCoefficient params * (moisture (h r) - moisture (h (g ! i ! j))))"
proof -
  have "foldl (\<lambda>d x. d + f x) a xs = a + sum_list (map f xs)" for f :: "nat \<Rightarrow> real" and a xs
    by (induction xs arbitrary: a) simp_all
  then show ?thesis by (simp add: deltaMoisture_def)
qed

lemma neighbors_square:
  assumes "3 \<le> n" and "isSquare n g" and "i < n" and "j < n"
  shows "neighbors g i j =
           (if 0 < i then [g ! (i - 1) ! j] else []) @
           (if i + 1 < n then [g ! (i + 1) ! j] else []) @
           (if 0 < j then [g ! i ! (j - 1)] else []) @
           (if j + 1 < n then [g ! i ! (j + 1)] else [])"
proof -
  have sq: "length g = n"
    using assms(2) by (simp add: isSquare_def)
  have len: "length (g ! k) = n" if "k < n" for k
    using assms(2) that by (simp add: isSquare_def list_all_length)
  have n1: "nat (int i - 1) = i - 1" "nat (int i + 1) = i + 1"
    "nat (int j - 1) = j - 1" "nat (int j + 1) = j + 1"
    by simp_all
  show ?thesis
    using assms(1,3,4) sq len
    by (auto simp add: neighbors_def elemAtChain_def elemAt_def n1)
qed

text \<open>In a grid of distinct objects a cell is written only when the sweep visits it, so
  its value after the step is the one \<open>updateCell\<close> computes at that moment.\<close>

lemma distinct_concat_rows:
  assumes "distinct (concat g)" and "i < length g" and "i' < length g" and "i \<noteq> i'"
  shows "set (g ! i) \<inter> set (g ! i') = {}"
  using assms
proof (induction g arbitrary: i i')
  case Nil
  then show ?case by simp
next
  case (Cons x xs)
  show ?case
  proof (cases i)
    case 0
    then obtain k where k: "i' = Suc k" using Cons.prems(4) by (cases i') auto
    then have "xs ! k \<in> set xs" using Cons.prems(3) by simp
    then show ?thesis using Cons.prems(1) 0 k by auto
  next
    case (Suc m)
    show ?thesis
    proof (cases i')
      case 0
      have "xs ! m \<in> set xs" using Cons.prems(2) Suc by simp
      then show ?thesis using Cons.prems(1) 0 Suc by auto
    next
      case (Suc k)
      then show ?thesis using Cons.IH[of m k] Cons.prems \<open>i = Suc m\<close> by simp
    qed
  qed
qed

lemma distinct_concat_row:
  "distinct (concat g) \<Longrightarrow> i < length g \<Longrightarrow> distinct (g ! i)"
  by (induction g arbitrary: i) (auto simp add: nth_Cons split: nat.splits)

lemma foldl_updateCell_other:
  assumes "\<forall>j\<in>set js. r \<noteq> g ! i ! j"
  shows "foldl (updateCell params dt g g i) h js r = h r"
  using assms by (induction js arbitrary: h) (simp_all add: updateCell_other)

lemma updateRow_other:
  assumes "r \<notin> set (g ! i)"
  shows "updateRow params dt g g h i r = h r"
  unfolding updateRow_def
  by (rule foldl_updateCell_other) (use assms in \<open>auto dest: nth_mem\<close>)

lemma foldl_updateRow_other:
  assumes "\<forall>i\<in>set is. r \<notin> set (g ! i)"
  shows "foldl (updateRow params dt g g) h is r = h r"
  using assms by (induction "is" arbitrary: h) (simp_all add: updateRow_other)

lemma cell_after_sweep:
  assumes d: "distinct (concat g)" and i: "i < length g" and j: "j < length (g ! i)"
  shows "snd (updateGridCells params dt g h) (g ! i ! j) =
           updateCell params dt g g i (sweepBefore params dt g h i j) j (g ! i ! j)"
proof -
  let ?r = "g ! i ! j"
  let ?H = "foldl (updateRow params dt g g) h [0..<i]"
  have rows: "[0..<length g] = [0..<i] @ i # [Suc i..<length g]"
    using i by (metis le_add2 le_add_same_cancel2 less_imp_add_positive upt_add_eq_append upt_conv_Cons)
  have cols: "[0..<length (g ! i)] = [0..<j] @ j # [Suc j..<length (g ! i)]"
    using j by (metis le_add2 le_add_same_cancel2 less_imp_add_positive upt_add_eq_append upt_conv_Cons)
  have rin: "?r \<in> set (g ! i)" using j by simp
  have later_rows: "\<forall>i'\<in>set [Suc i..<length g]. ?r \<notin> set (g ! i')"
  proof
    fix i' assume "i' \<in> set [Suc i..<length g]"
    then have "i' < length g" "i \<noteq> i'" by auto
    from distinct_concat_rows[OF d i this] rin show "?r \<notin> set (g ! i')" by auto
  qed
  have later_cols: "\<forall>j'\<in>set [Suc j..<length (g ! i)]. ?r \<noteq> g ! i ! j'"
  proof
    fix j' assume "j' \<in> set [Suc j..<length (g ! i)]"
    then have "j' < length (g ! i)" "j \<noteq> j'" by auto
    then show "?r \<noteq> g ! i ! j'"
      using distinct_concat_row[OF d i] j by (simp add: nth_eq_iff_index_eq)
  qed
  have "snd (updateGridCells params dt g h) ?r =
        foldl (updateRow params dt g g) (updateRow params dt g g ?H i) [Suc i..<length g] ?r"
    by (simp add: updateGridCells_def copyRows_same Let_def rows)
  also have "\<dots> = updateRow params dt g g ?H i ?r"
    using later_rows by (rule foldl_updateRow_other)
  also have "\<dots> = foldl (updateCell params dt g g i)
                      (updateCell params dt g g i (sweepBefore params dt g h i j) j)
                      [Suc j..<length (g ! i)] ?r"
    by (simp add: updateRow_def cols sweepBefore_def)
  also have "\<dots> = updateCell params dt g g i (sweepBefore params dt g h i j) j ?r"
    using later_cols by (rule foldl_updateCell_other)
  finally show ?thesis .
qed

text \<open>
  Claim C8: in an \<open>n \<times> n\<close> grid with \<open>n \<ge> 3\<close>, on every step the neighbours of a cell are
  exactly the cells above, below, left and right of it that lie in the grid, so a corner
  cell has 2 of them, any other border cell 3 and an interior cell 4; and, the cells of
  the grid being distinct objects (as in every grid the component builds), the moisture
  the step gives the cell is its moisture after the local flux plus the diffusion sum
  over exactly these neighbours, times the time step size, clamped. Missing neighbours
  contribute nothing (no wraparound, no mirroring).
\<close>

theorem neighbor_counts:
  assumes "3 \<le> n" and "isSquare n (grid s)" and "i < n" and "j < n"
  shows "neighbors (grid s) i j =
           (if 0 < i then [grid s ! (i - 1) ! j] else []) @
           (if i + 1 < n then [grid s ! (i + 1) ! j] else []) @
           (if 0 < j then [grid s ! i ! (j - 1)] else []) @
           (if j + 1 < n then [grid s ! i ! (j + 1)] else []) \<and>
         length (neighbors (grid s) i j) =
           (if isCorner n i j then 2 else if isBorder n i j then 3 else 4) \<and>
         (distinct (concat (grid s)) \<longrightarrow>
          moisture (cellAt (updateGrid params dt s) i j) =
            max 0 (min 1
              (moisture (readStore params dt (grid s) (cells s) i j (grid s ! i ! j)) +
               (\<Sum>r\<leftarrow>neighbors (grid s) i j.
                  diffusionCoefficient params *
                    (moisture (readStore params dt (grid s) (cells s) i j r) -
                     moisture (readStore params dt (grid s) (cells s) i j (grid s ! i ! j)))) * dt)))"
proof -
  have sq: "length (grid s) = n"
    using assms(2) by (simp add: isSquare_def)
  have len: "length (grid s ! i) = n"
    using assms(2,3) by (simp add: isSquare_def list_all_length)
  have a: "neighbors (grid s) i j =
           (if 0 < i then [grid s ! (i - 1) ! j] else []) @
           (if i + 1 < n then [grid s ! (i + 1) ! j] else []) @
           (if 0 < j then [grid s ! i ! (j - 1)] else []) @
           (if j + 1 < n then [grid s ! i ! (j + 1)] else [])"
    using assms by (rule neighbors_square)
  have b: "length (neighbors (grid s) i j) =
           (if isCorner n i j then 2 else if isBorder n i j then 3 else 4)"
    unfolding a using assms(1,3,4) by (auto simp add: isCorner_def isBorder_def)
  have "cells (updateGrid params dt s) (grid s ! i ! j) =
          updateCell params dt (grid s) (grid s) i
            (sweepBefore params dt (grid s) (cells s) i j) j (grid s ! i ! j)"
    if "distinct (concat (grid s))"
    unfolding cells_updateGrid
    using that assms(3,4) by (intro cell_after_sweep) (simp_all add: sq len)
  then have c: "distinct (concat (grid s)) \<Longrightarrow> moisture (cellAt (updateGrid params dt s) i j) =
           max 0 (min 1
             (moisture (readStore params dt (grid s) (cells s) i j (grid s ! i ! j)) +
              (\<Sum>r\<leftarrow>neighbors (grid s) i j.
                 diffusionCoefficient params *
                   (moisture (readStore params dt (grid s) (cells s) i j r) -
                    moisture (readStore params dt (grid s) (cells s) i j (grid s ! i ! j)))) * dt))"
    by (simp add: cellAt_def grid_updateGrid moisture_updateCell deltaMoisture_sum readStore_def)
  from a b c show ?thesis by blast
qed

text \<open>In the 3 by 3 grid the interior cell has moisture \<open>1/2\<close>; when the sweep reaches it, its
  neighbours above and to the left have already been updated to \<open>7/16\<close> and \<open>9/16\<close>, those
  below and to the right still hold \<open>7/8\<close> and \<open>5/8\<close>, and with \<open>D = 1/2\<close> the cell ends at
  \<open>3/4\<close>.\<close>

theorem neighbor_counts_witness:
  "(3::nat) \<le> 3 \<and> isSquare 3 (grid nineCellSim) \<and> distinct (concat (grid nineCellSim)) \<and>
   neighbors (grid nineCellSim) 0 0 = [3, 1] \<and> isCorner 3 0 0 \<and>
   neighbors (grid nineCellSim) 0 1 = [4, 0, 2] \<and> \<not> isCorner 3 0 1 \<and> isBorder 3 0 1 \<and>
   neighbors (grid nineCellSim) 1 1 = [1, 7, 3, 5] \<and> \<not> isBorder 3 1 1 \<and>
   moisture (cellAt (updateGrid diffusionOnly 1 nineCellSim) 1 1) = 3 / 4"
proof -
  have g: "grid nineCellSim = grid3"
    by (simp add: nineCellSim_def)
  have h: "(3::nat) \<le> 3" "isSquare 3 (grid nineCellSim)"
    by (simp_all add: g grid3_def isSquare_def)
  have d: "distinct (concat (grid nineCellSim))"
    by (simp add: g grid3_def)
  have i: "(0::nat) < 3" "(1::nat) < 3" by simp_all
  have n: "neighbors (grid nineCellSim) 0 0 = [3, 1]"
    "neighbors (grid nineCellSim) 0 1 = [4, 0, 2]"
    "neighbors (grid nineCellSim) 1 1 = [1, 7, 3, 5]"
    using neighbor_counts[OF h i(1) i(1), THEN conjunct1]
      neighbor_counts[OF h i(1) i(2), THEN conjunct1]
      neighbor_counts[OF h i(2) i(2), THEN conjunct1]
    by (simp_all add: g grid3_def)
  have c: "isCorner 3 0 0" "\<not> isCorner 3 0 1" "isBorder 3 0 1" "\<not> isBorder 3 1 1"
    by (simp_all add: isCorner_def isBorder_def)
  have m: "moisture (cellAt (updateGrid diffusionOnly 1 nineCellSim) 1 1) = 3 / 4"
    by (rule neighbor_counts[OF h i(2) i(2), THEN conjunct2, THEN conjunct2, THEN mp, OF d,
               THEN trans])
       (simp add: readStore_def sweepBefore_def updateRow_def cellStages deltaMoisture_def
                  neighbors_def elemAt_def elemAtChain_def grid3_def nineCellSim_def exampleStates)
  from h d n c m show ?thesis by simp
qed

end
